theory Spec2Isabelle
  imports Main "HOL-Library.Word" "HOL-Library.Multiset" "HOL-Library.Sublist"
begin

section \<open>Data model\<close>

text \<open>
  The Go types of \<^verbatim>\<open>types.go\<close> and of the RPC library, as far as
  \<^verbatim>\<open>transactions.go\<close> reads them. A Go \<^verbatim>\<open>error\<close> is represented by its message
  (what \<^verbatim>\<open>Error()\<close> returns, which is what \<^verbatim>\<open>%w\<close> and \<^verbatim>\<open>%v\<close> print); a pointer
  that may be \<^verbatim>\<open>nil\<close> is an \<open>option\<close>. The types of the Solana library
  (\<^verbatim>\<open>solana.PublicKey\<close>, \<^verbatim>\<open>solana.Signature\<close>, \<^verbatim>\<open>rpc.TransactionMeta\<close>,
  \<^verbatim>\<open>rpc.TransactionResultEnvelope\<close>, \<^verbatim>\<open>solana.Transaction\<close>) are the type variables
  \<open>'pk\<close>, \<open>'sg\<close>, \<open>'meta\<close>, \<open>'env\<close>, \<open>'tx\<close>.
\<close>

type_synonym error = string
type_synonym uint64 = "64 word"
type_synonym int64 = "64 word"
type_synonym Time = int

text \<open>
  A Go slice is either \<^verbatim>\<open>nil\<close> or a (possibly empty) sequence; \<^verbatim>\<open>make\<close> never returns
  \<^verbatim>\<open>nil\<close>, and \<^verbatim>\<open>append\<close> to either gives a sequence.
\<close>

datatype 'a slice = nil_slice | Slice "'a list"

fun elems :: "'a slice \<Rightarrow> 'a list" where
  "elems nil_slice = []"
| "elems (Slice xs) = xs"

definition len :: "'a slice \<Rightarrow> nat" where
  "len s = length (elems s)"

definition make_slice :: "'a slice" where
  "make_slice = Slice []"

definition append_slice :: "'a slice \<Rightarrow> 'a \<Rightarrow> 'a slice" where
  "append_slice s x = Slice (elems s @ [x])"

text \<open>\<^verbatim>\<open>rpc.TransactionSignature\<close>: the fields the pipeline reads.\<close>

record 'sg TransactionSignature =
  sig_Signature :: 'sg
  sig_Slot :: uint64
  sig_BlockTime :: "int64 option"

text \<open>\<^verbatim>\<open>rpc.GetTransactionResult\<close>: the fields the pipeline reads.\<close>

record ('meta, 'env) GetTransactionResult =
  res_Meta :: "'meta option"
  res_Transaction :: "'env option"

text \<open>\<^verbatim>\<open>TransactionInfo\<close> and \<^verbatim>\<open>AccountTransactions\<close> of \<^verbatim>\<open>types.go\<close>.\<close>

record ('meta, 'tx) TransactionInfo =
  Signature :: string
  Slot :: uint64
  BlockTime :: "int64 option"
  Meta :: "'meta option"
  Transaction :: "'tx option"

record ('pk, 'meta, 'tx) AccountTransactions =
  Account :: 'pk
  Transactions :: "('meta, 'tx) TransactionInfo slice"
  LastFetched :: Time

text \<open>
  The external collaborators: the two RPC calls of \<^verbatim>\<open>rpc.Client\<close> (with the fixed
  options the pipeline passes: base64 encoding, confirmed commitment, maximal version 0),
  the envelope's decoder \<^verbatim>\<open>GetTransaction()\<close>, and the two \<^verbatim>\<open>String()\<close> methods.
  Each takes its arguments to its result, so the upstream is stable over one run, and
  every call returns. A call that returns a non-\<^verbatim>\<open>nil\<close> error is \<open>Inl\<close>.
\<close>

record ('pk, 'sg, 'meta, 'env, 'tx) Client =
  GetSignaturesForAddress :: "'pk \<Rightarrow> error + 'sg TransactionSignature list"
  GetTransaction :: "'sg \<Rightarrow> error + ('meta, 'env) GetTransactionResult"
  Envelope_GetTransaction :: "'env \<Rightarrow> error + 'tx option"
  PublicKey_String :: "'pk \<Rightarrow> string"
  Signature_String :: "'sg \<Rightarrow> string"

text \<open>The function-local \<^verbatim>\<open>transactionResult\<close> sent over the channel.\<close>

record ('meta, 'tx) transactionResult =
  info :: "('meta, 'tx) TransactionInfo"
  index :: nat
  err :: "error option"

section \<open>The enrichment pipeline: \<^verbatim>\<open>FetchAccountTransactions\<close>\<close>

text \<open>
  Lines 28 to 31. \<^verbatim>\<open>limit\<close> is a Go \<^verbatim>\<open>int\<close>; the result lies between 0 and
  \<^verbatim>\<open>len(signatures)\<close> and is the bound of the loops, so it is a \<open>nat\<close>.
\<close>

definition processCount :: "'a list \<Rightarrow> int \<Rightarrow> nat" where
  "processCount signatures limit =
     (if limit > 0 \<and> limit < int (length signatures) then nat limit
      else length signatures)"

text \<open>The zero value of \<^verbatim>\<open>TransactionInfo\<close>, which a failed task sends as \<^verbatim>\<open>info\<close>.\<close>

definition zero_TransactionInfo :: "('meta, 'tx) TransactionInfo" where
  "zero_TransactionInfo =
     \<lparr>Signature = [], Slot = 0, BlockTime = None, Meta = None, Transaction = None\<rparr>"

text \<open>
  Lines 46 to 85, the body of one task: what the goroutine for \<^verbatim>\<open>(index, sig)\<close> sends
  to \<^verbatim>\<open>resultChan\<close>. Every path sends exactly one value. The log lines are not modelled.
\<close>

definition fetch_task ::
  "('pk, 'sg, 'meta, 'env, 'tx) Client \<Rightarrow> nat \<Rightarrow> 'sg TransactionSignature
     \<Rightarrow> ('meta, 'tx) transactionResult" where
  "fetch_task c i sg =
     (case GetTransaction c (sig_Signature sg) of
        Inl e \<Rightarrow> \<lparr>info = zero_TransactionInfo, index = i, err = Some e\<rparr>
      | Inr txResult \<Rightarrow>
          (let blockTime = (case sig_BlockTime sg of None \<Rightarrow> None | Some t \<Rightarrow> Some t);
               txInfo = \<lparr>Signature = Signature_String c (sig_Signature sg),
                         Slot = sig_Slot sg,
                         BlockTime = blockTime,
                         Meta = res_Meta txResult,
                         Transaction = None\<rparr>;
               txInfo' =
                 (case res_Transaction txResult of
                    None \<Rightarrow> txInfo
                  | Some envelope \<Rightarrow>
                      (case Envelope_GetTransaction c envelope of
                         Inl e \<Rightarrow> txInfo
                       | Inr parsedTx \<Rightarrow> txInfo\<lparr>Transaction := parsedTx\<rparr>))
           in \<lparr>info = txInfo', index = i, err = None\<rparr>))"

text \<open>
  Lines 44 to 86, the launching loop \<^verbatim>\<open>for i := 0; i < processCount; i++\<close>: the tasks
  it starts, in the order they are started, each given by the arguments
  \<^verbatim>\<open>(i, signatures[i])\<close> its goroutine is called with. The loop is run with
  \<open>n = processCount signatures limit\<close>, which is at most the length of the list
  (\<open>processCount_le\<close> below), so \<^verbatim>\<open>signatures[i]\<close> is always in range.
\<close>

function launch ::
  "'sg TransactionSignature list \<Rightarrow> nat \<Rightarrow> nat \<Rightarrow> (nat \<times> 'sg TransactionSignature) list" where
  "launch signatures i n =
     (if i < n then (i, signatures ! i) # launch signatures (Suc i) n
      else [])"
  by pat_completeness auto
termination
  by (relation "measure (\<lambda>(signatures, i, n). n - i)") auto

text \<open>What the launched tasks send, each task running the body above on its arguments.\<close>

definition run_tasks ::
  "('pk, 'sg, 'meta, 'env, 'tx) Client \<Rightarrow> (nat \<times> 'sg TransactionSignature) list
     \<Rightarrow> ('meta, 'tx) transactionResult list" where
  "run_tasks c tasks = map (\<lambda>(i, sg). fetch_task c i sg) tasks"

text \<open>
  The channel. Its capacity is \<^verbatim>\<open>processCount\<close>, so no send blocks; it is closed once
  every task has sent, and the receiving loop runs until then. What the receiver sees is
  the values of the tasks in the order they complete. A schedule \<open>sched\<close> fixes that
  order: at each step the pending task number \<open>s mod length pending\<close> completes next
  (the first pending one once the schedule is used up).
\<close>

function deliver :: "nat list \<Rightarrow> 'a list \<Rightarrow> 'a list" where
  "deliver sched pending =
     (if pending = [] then []
      else
        (let k = (case sched of [] \<Rightarrow> 0 | s # _ \<Rightarrow> s mod length pending)
         in pending ! k # deliver (tl sched) (take k pending @ drop (Suc k) pending)))"
  by pat_completeness auto
termination
proof (relation "measure (\<lambda>(sched, pending). length pending)")
  fix sched :: "nat list" and pending :: "'a list" and k
  assume ne: "pending \<noteq> []"
    and k: "k = (case sched of [] \<Rightarrow> 0 | s # _ \<Rightarrow> s mod length pending)"
  from ne have "0 < length pending" by simp
  with k have "k < length pending" by (cases sched) simp_all
  then show "((tl sched, take k pending @ drop (Suc k) pending), (sched, pending))
      \<in> measure (\<lambda>(sched, pending). length pending)"
    by simp
qed simp

text \<open>Lines 96 to 100, the receiving loop that fills \<^verbatim>\<open>resultMap\<close>.\<close>

fun collect ::
  "('meta, 'tx) transactionResult list \<Rightarrow> (nat \<rightharpoonup> ('meta, 'tx) TransactionInfo)
     \<Rightarrow> (nat \<rightharpoonup> ('meta, 'tx) TransactionInfo)" where
  "collect [] resultMap = resultMap"
| "collect (result # rest) resultMap =
     collect rest (if err result = None then resultMap(index result \<mapsto> info result)
                   else resultMap)"

text \<open>Lines 102 to 106, the loop that assembles \<^verbatim>\<open>results\<close> from \<^verbatim>\<open>resultMap\<close>.\<close>

function assemble ::
  "nat \<Rightarrow> nat \<Rightarrow> (nat \<rightharpoonup> 'a) \<Rightarrow> 'a slice \<Rightarrow> 'a slice" where
  "assemble i n resultMap results =
     (if i < n then
        assemble (Suc i) n resultMap
          (case resultMap i of
             Some txInfo \<Rightarrow> append_slice results txInfo
           | None \<Rightarrow> results)
      else results)"
  by pat_completeness auto
termination
  by (relation "measure (\<lambda>(i, n, resultMap, results). n - i)") auto

text \<open>
  The whole function. Besides the receiver's client, the account and the limit, it
  depends on the completion order of the tasks (\<open>sched\<close>) and on what \<^verbatim>\<open>time.Now()\<close>
  reads (\<open>now\<close>). One execution of it does two things: it starts fetch tasks, and it
  returns Go's two results, the pointer and the error. What the function prints and logs
  is not part of the model.
\<close>

record ('pk, 'sg, 'meta, 'tx) execution =
  launched :: "(nat \<times> 'sg TransactionSignature) list"
  returned :: "('pk, 'meta, 'tx) AccountTransactions option \<times> error option"

definition FetchAccountTransactions_run ::
  "('pk, 'sg, 'meta, 'env, 'tx) Client \<Rightarrow> nat list \<Rightarrow> Time \<Rightarrow> 'pk \<Rightarrow> int
     \<Rightarrow> ('pk, 'sg, 'meta, 'tx) execution" where
  "FetchAccountTransactions_run c sched now account limit =
     (case GetSignaturesForAddress c account of
        Inl e \<Rightarrow>
          \<lparr>launched = [],
           returned = (None, Some (''failed to get signatures for account ''
                                     @ PublicKey_String c account @ '': '' @ e))\<rparr>
      | Inr signatures \<Rightarrow>
          (let n = processCount signatures limit;
               tasks = launch signatures 0 n;
               received = deliver sched (run_tasks c tasks);
               resultMap = collect received Map.empty;
               results = assemble 0 n resultMap make_slice;
               transactions = results
           in \<lparr>launched = tasks,
               returned =
                 (Some \<lparr>Account = account, Transactions = transactions, LastFetched = now\<rparr>,
                  None)\<rparr>))"

text \<open>The function as its caller sees it: what an execution returns.\<close>

definition FetchAccountTransactions ::
  "('pk, 'sg, 'meta, 'env, 'tx) Client \<Rightarrow> nat list \<Rightarrow> Time \<Rightarrow> 'pk \<Rightarrow> int
     \<Rightarrow> ('pk, 'meta, 'tx) AccountTransactions option \<times> error option" where
  "FetchAccountTransactions c sched now account limit =
     returned (FetchAccountTransactions_run c sched now account limit)"

text \<open>
  Vocabulary for the properties of the pipeline: the enriched record of input index \<open>i\<close>
  (what the task for \<open>i\<close> builds), and the indices below \<open>n\<close> whose full-transaction
  fetch succeeds, in ascending order.
\<close>

definition record_of ::
  "('pk, 'sg, 'meta, 'env, 'tx) Client \<Rightarrow> 'sg TransactionSignature list \<Rightarrow> nat
     \<Rightarrow> ('meta, 'tx) TransactionInfo" where
  "record_of c signatures i = info (fetch_task c i (signatures ! i))"

definition fetch_ok ::
  "('pk, 'sg, 'meta, 'env, 'tx) Client \<Rightarrow> 'sg TransactionSignature list \<Rightarrow> nat \<Rightarrow> bool" where
  "fetch_ok c signatures i = (\<not> isl (GetTransaction c (sig_Signature (signatures ! i))))"

definition succeeded ::
  "('pk, 'sg, 'meta, 'env, 'tx) Client \<Rightarrow> 'sg TransactionSignature list \<Rightarrow> nat
     \<Rightarrow> nat list" where
  "succeeded c signatures n = filter (fetch_ok c signatures) [0..<n]"

section \<open>The caller: \<^verbatim>\<open>main\<close>\<close>

text \<open>
  \<^verbatim>\<open>main\<close> from the call of \<^verbatim>\<open>FetchAccountTransactions\<close> to the branch on
  \<^verbatim>\<open>len(accountTxs.Transactions)\<close>: the lines it logs itself and where it goes. Reading a
  field through a \<^verbatim>\<open>nil\<close> pointer panics. The constant \<^verbatim>\<open>TRANSACTIONS_LIMIT\<close> is
  a parameter.
\<close>

datatype ('pk, 'meta, 'tx) main_branch =
    NilPointerDereference
  | AnalyzeTransactions "('pk, 'meta, 'tx) AccountTransactions"
  | NoRecentTransactions

definition main ::
  "('pk, 'sg, 'meta, 'env, 'tx) Client \<Rightarrow> nat list \<Rightarrow> Time \<Rightarrow> 'pk \<Rightarrow> int
     \<Rightarrow> string list \<times> ('pk, 'meta, 'tx) main_branch" where
  "main c sched now account TRANSACTIONS_LIMIT =
     (case FetchAccountTransactions c sched now account TRANSACTIONS_LIMIT of
        (accountTxs, fetch_err) \<Rightarrow>
          (let logged =
                 (case fetch_err of
                    Some e \<Rightarrow> [''Error fetching transactions for account ''
                                 @ PublicKey_String c account @ '': '' @ e]
                  | None \<Rightarrow> [])
           in case accountTxs of
                None \<Rightarrow> (logged, NilPointerDereference)
              | Some b \<Rightarrow>
                  if len (Transactions b) > 0 then (logged, AnalyzeTransactions b)
                  else (logged @ [''No recent transactions found for account: ''
                                    @ PublicKey_String c account],
                        NoRecentTransactions)))"

section \<open>Configuration: \<^verbatim>\<open>GetWSURL\<close>\<close>

text \<open>
  \<open>getenv\<close> is \<^verbatim>\<open>os.Getenv\<close> once \<^verbatim>\<open>godotenv.Load()\<close> has run: the empty string for
  a variable that is not set. \<^verbatim>\<open>log.Fatal\<close> ends the process: \<open>Inl\<close> with the message.
  Go slices a string by bytes, as \<open>take\<close> and \<open>drop\<close> do on a \<open>string\<close>.
\<close>

definition GetWSURL :: "(string \<Rightarrow> string) \<Rightarrow> string + string" where
  "GetWSURL getenv =
     (let wsURL = getenv ''WS_URL'' in
      if wsURL \<noteq> [] then Inr wsURL
      else
        (let httpURL = getenv ''RPC_URL'' in
         if httpURL = [] then Inl ''WS_URL or RPC_URL environment variable is required''
         else if length httpURL \<ge> 8 \<and> take 8 httpURL = ''https://''
           then Inr (''wss://'' @ drop 8 httpURL)
         else if length httpURL \<ge> 7 \<and> take 7 httpURL = ''http://''
           then Inr (''ws://'' @ drop 7 httpURL)
         else if length httpURL \<ge> 6 \<and> take 6 httpURL = ''wss://'' then Inr httpURL
         else if length httpURL \<ge> 5 \<and> take 5 httpURL = ''ws://'' then Inr httpURL
         else Inr httpURL))"

section \<open>A concrete upstream\<close>

text \<open>
  Three signatures for the account \<open>''wallet''\<close>: the fetch of \<open>S0\<close> succeeds and its
  payload decodes, the fetch of \<open>S1\<close> fails, the fetch of \<open>S2\<close> succeeds and its payload
  does not decode. The account \<open>''busy''\<close> has five signatures, the account \<open>''fresh''\<close>
  has none, and listing fails for every other account.
\<close>

definition five_signatures :: "string TransactionSignature list" where
  "five_signatures =
     map (\<lambda>s. \<lparr>sig_Signature = s, sig_Slot = 7, sig_BlockTime = None\<rparr>)
       [''A'', ''B'', ''C'', ''D'', ''E'']"

definition demo_signatures :: "string TransactionSignature list" where
  "demo_signatures =
     [\<lparr>sig_Signature = ''S0'', sig_Slot = 100, sig_BlockTime = Some 1700000000\<rparr>,
      \<lparr>sig_Signature = ''S1'', sig_Slot = 101, sig_BlockTime = None\<rparr>,
      \<lparr>sig_Signature = ''S2'', sig_Slot = 102, sig_BlockTime = Some 1700000002\<rparr>]"

definition demo_client :: "(string, string, nat, string, string) Client" where
  "demo_client =
     \<lparr>GetSignaturesForAddress =
        (\<lambda>a. if a = ''wallet'' then Inr demo_signatures
             else if a = ''busy'' then Inr five_signatures
             else if a = ''fresh'' then Inr []
             else Inl ''rpc unavailable''),
      GetTransaction =
        (\<lambda>s. if s = ''S1'' then Inl ''not found''
             else Inr \<lparr>res_Meta = Some 5000, res_Transaction = Some s\<rparr>),
      Envelope_GetTransaction =
        (\<lambda>e. if e = ''S2'' then Inl ''bad payload'' else Inr (Some (''tx of '' @ e))),
      PublicKey_String = (\<lambda>a. a),
      Signature_String = (\<lambda>s. s)\<rparr>"

section \<open>Properties of the loops\<close>

text \<open>
  The recursive equations of the three loops are unfolded by hand, one iteration at a time.
\<close>

declare launch.simps [simp del] deliver.simps [simp del] assemble.simps [simp del]

lemma launch_map:
  "launch signatures i n = map (\<lambda>j. (j, signatures ! j)) [i..<n]"
proof (induction signatures i n rule: launch.induct)
  case (1 signatures i n)
  show ?case
  proof (cases "i < n")
    case True
    with 1 show ?thesis
      by (subst launch.simps) (simp add: upt_conv_Cons)
  next
    case False
    then show ?thesis by (subst launch.simps) simp
  qed
qed

text \<open>A task sends its own index, and an error exactly when its fetch fails.\<close>

lemma index_fetch_task: "index (fetch_task c i sg) = i"
  by (simp add: fetch_task_def Let_def split: sum.splits)

text \<open>
  The channel model is adequate: whatever the schedule, the receiver sees each task's value
  exactly once, and every order of the values is the delivery of some schedule.
\<close>

lemma mset_remove_nth:
  "k < length xs \<Longrightarrow> add_mset (xs ! k) (mset (take k xs @ drop (Suc k) xs)) = mset xs"
proof -
  assume k: "k < length xs"
  then have "xs = take k xs @ xs ! k # drop (Suc k) xs"
    by (simp add: id_take_nth_drop)
  then have "mset xs = mset (take k xs @ xs ! k # drop (Suc k) xs)" by simp
  then show ?thesis by simp
qed

lemma mset_deliver: "mset (deliver sched pending) = mset pending"
proof (induction sched pending rule: deliver.induct)
  case (1 sched pending)
  show ?case
  proof (cases "pending = []")
    case True
    then show ?thesis by (subst deliver.simps) simp
  next
    case False
    define k where "k = (case sched of [] \<Rightarrow> 0 | s # _ \<Rightarrow> s mod length pending)"
    from False have "0 < length pending" by simp
    then have klt: "k < length pending" unfolding k_def by (cases sched) simp_all
    have ih: "mset (deliver (tl sched) (take k pending @ drop (Suc k) pending))
        = mset (take k pending @ drop (Suc k) pending)"
      using 1 [OF False k_def] .
    have "deliver sched pending
        = pending ! k # deliver (tl sched) (take k pending @ drop (Suc k) pending)"
      using False by (subst deliver.simps) (simp add: k_def Let_def)
    then show ?thesis
      using ih mset_remove_nth [OF klt] by simp
  qed
qed

lemma deliver_complete: "mset ys = mset pending \<Longrightarrow> \<exists>sched. deliver sched pending = ys"
proof (induction ys arbitrary: pending)
  case Nil
  then show ?case by (simp add: deliver.simps)
next
  case (Cons y ys)
  then have "y \<in> set pending" by (metis list.set_intros(1) mset_eq_setD)
  then obtain k where k: "k < length pending" "pending ! k = y"
    by (auto simp: in_set_conv_nth)
  let ?rest = "take k pending @ drop (Suc k) pending"
  have "add_mset y (mset ?rest) = mset pending"
    using mset_remove_nth [OF k(1)] k(2) by simp
  with Cons.prems have "add_mset y (mset ys) = add_mset y (mset ?rest)" by simp
  then have "mset ys = mset ?rest" by simp
  from Cons.IH [OF this] obtain sched where s: "deliver sched ?rest = ys" by blast
  have ne: "pending \<noteq> []" using k(1) by auto
  have "deliver (k # sched) pending = y # ys"
    using ne k s by (subst deliver.simps) (simp add: Let_def)
  then show ?case by blast
qed

text \<open>The receiving loop: a key is written only by a successful result that carries it.\<close>

lemma collect_other:
  "(\<And>r. r \<in> set rs \<Longrightarrow> err r = None \<Longrightarrow> index r \<noteq> k) \<Longrightarrow> collect rs m k = m k"
  by (induction rs arbitrary: m) auto

lemma collect_hit:
  "r \<in> set rs \<Longrightarrow> distinct (map index rs) \<Longrightarrow> err r = None
     \<Longrightarrow> collect rs m (index r) = Some (info r)"
proof (induction rs arbitrary: m)
  case Nil
  then show ?case by simp
next
  case (Cons a rs)
  show ?case
  proof (cases "r = a")
    case True
    have "collect rs (m(index a \<mapsto> info a)) (index a) = (m(index a \<mapsto> info a)) (index a)"
    proof (rule collect_other)
      fix r' assume "r' \<in> set rs"
      then have "index r' \<in> index ` set rs" by (rule imageI)
      with Cons.prems(2) show "index r' \<noteq> index a" by auto
    qed
    with True Cons.prems(3) show ?thesis by simp
  next
    case False
    with Cons.prems have "r \<in> set rs" "distinct (map index rs)" by auto
    from Cons.IH [OF this Cons.prems(3)] show ?thesis by simp
  qed
qed

text \<open>The assembling loop appends the entries of the map in ascending order of their keys.\<close>

lemma assemble_filter:
  "assemble i n m results
     = Slice (elems results @ map (\<lambda>j. the (m j)) (filter (\<lambda>j. m j \<noteq> None) [i..<n]))"
  if "results \<noteq> nil_slice"
  using that
proof (induction i n m results rule: assemble.induct)
  case (1 i n m results)
  show ?case
  proof (cases "i < n")
    case True
    have step: "assemble i n m results = assemble (Suc i) n m
          (case m i of Some txInfo \<Rightarrow> append_slice results txInfo | None \<Rightarrow> results)"
      using True by (subst assemble.simps) simp
    have ne: "(case m i of Some txInfo \<Rightarrow> append_slice results txInfo | None \<Rightarrow> results)
        \<noteq> nil_slice"
      using 1(2) by (simp add: append_slice_def split: option.splits)
    show ?thesis
      unfolding step 1(1) [OF True ne]
      using True by (simp add: upt_conv_Cons append_slice_def split: option.splits)
  next
    case False
    with 1(2) show ?thesis
      by (subst assemble.simps) (cases results; simp)
  qed
qed


lemma err_fetch_task:
  "(err (fetch_task c i (signatures ! i)) = None) = fetch_ok c signatures i"
  by (simp add: fetch_task_def fetch_ok_def Let_def split: sum.splits)

lemma processCount_le: "processCount signatures limit \<le> length signatures"
  by (auto simp: processCount_def)

text \<open>
  For any order in which the values of the launched tasks arrive, the map holds exactly the
  records of the successful indices, and the assembled slice lists them in ascending order.
\<close>

lemma collect_received:
  assumes "mset received = mset (run_tasks c (launch signatures 0 n))"
  shows "collect received Map.empty i =
           (if i < n \<and> fetch_ok c signatures i then Some (record_of c signatures i) else None)"
proof -
  let ?task = "\<lambda>j. fetch_task c j (signatures ! j)"
  have m: "mset received = mset (map ?task [0..<n])"
    using assms by (simp add: launch_map run_tasks_def comp_def)
  then have set_eq: "set received = ?task ` {0..<n}"
    using mset_eq_setD by fastforce
  have "mset (map index received) = mset (map index (map ?task [0..<n]))"
    using m by (metis mset_map)
  also have "map index (map ?task [0..<n]) = [0..<n]"
    by (simp add: index_fetch_task map_idI)
  finally have "distinct (map index received) = distinct [0..<n]"
    by (rule mset_eq_imp_distinct_iff)
  then have dist: "distinct (map index received)" by simp
  show ?thesis
  proof (cases "i < n \<and> fetch_ok c signatures i")
    case True
    then have mem: "?task i \<in> set received" using set_eq by auto
    have ok: "err (?task i) = None" using True by (simp add: err_fetch_task)
    from collect_hit [OF mem dist ok, of Map.empty] True show ?thesis
      by (simp add: index_fetch_task record_of_def)
  next
    case False
    have "collect received Map.empty i = Map.empty i"
    proof (rule collect_other)
      fix r assume r: "r \<in> set received" and e: "err r = None"
      from r set_eq obtain j where j: "j < n" "r = ?task j" by auto
      with e have "fetch_ok c signatures j" by (simp add: err_fetch_task)
      with False j show "index r \<noteq> i" by (auto simp: index_fetch_task)
    qed
    with False show ?thesis by simp
  qed
qed

lemma assemble_received:
  assumes "mset received = mset (run_tasks c (launch signatures 0 n))"
  shows "assemble 0 n (collect received Map.empty) make_slice
           = Slice (map (record_of c signatures) (succeeded c signatures n))"
proof -
  let ?m = "collect received Map.empty"
  have f: "filter (\<lambda>j. ?m j \<noteq> None) [0..<n] = succeeded c signatures n"
    unfolding succeeded_def
    by (rule filter_cong) (simp_all add: collect_received [OF assms])
  have "map (\<lambda>j. the (?m j)) (succeeded c signatures n)
          = map (record_of c signatures) (succeeded c signatures n)"
    by (rule map_cong) (auto simp: succeeded_def collect_received [OF assms])
  with f show ?thesis
    by (simp add: assemble_filter make_slice_def)
qed

section \<open>The result of \<^verbatim>\<open>FetchAccountTransactions\<close>\<close>

lemma Fetch_listed:
  assumes "GetSignaturesForAddress c account = Inr signatures"
  shows "FetchAccountTransactions c sched now account limit =
           (Some \<lparr>Account = account,
                   Transactions = Slice (map (record_of c signatures)
                     (succeeded c signatures (processCount signatures limit))),
                   LastFetched = now\<rparr>, None)"
  using assms
  by (simp add: FetchAccountTransactions_def FetchAccountTransactions_run_def Let_def
      assemble_received mset_deliver)

lemma Fetch_failed:
  assumes "GetSignaturesForAddress c account = Inl e"
  shows "FetchAccountTransactions c sched now account limit =
           (None, Some (''failed to get signatures for account ''
                          @ PublicKey_String c account @ '': '' @ e))"
  using assms by (simp add: FetchAccountTransactions_def FetchAccountTransactions_run_def)



lemma sorted_succeeded: "sorted_wrt (<) (succeeded c signatures n)"
  unfolding succeeded_def by (rule sorted_wrt_filter) simp

lemma succeeded_split:
  assumes "i < n" "fetch_ok c signatures i"
  shows "succeeded c signatures n =
           succeeded c signatures i @ i # filter (fetch_ok c signatures) [Suc i..<n]"
proof -
  have "[0..<n] = [0..<i] @ i # [Suc i..<n]"
  proof -
    have "[0..<n] = [0..<i] @ [i..<n]"
      using assms(1) upt_add_eq_append [of 0 i "n - i"] by simp
    then show ?thesis using assms(1) by (simp add: upt_conv_Cons)
  qed
  then show ?thesis using assms(2) by (simp add: succeeded_def)
qed

section \<open>The concrete upstream, evaluated\<close>

lemma demo_listing: "GetSignaturesForAddress demo_client ''wallet'' = Inr demo_signatures"
  by (simp add: demo_client_def)

lemma demo_processCount: "processCount demo_signatures 3 = 3"
  by (simp add: processCount_def demo_signatures_def)

lemma demo_fetch_ok:
  "fetch_ok demo_client demo_signatures 0"
  "\<not> fetch_ok demo_client demo_signatures (Suc 0)"
  "fetch_ok demo_client demo_signatures 2"
  by (simp_all add: fetch_ok_def demo_client_def demo_signatures_def)

lemma upt_0_2: "[0..<2] = [0, 1]"
  by (simp add: upt_conv_Cons)

lemma upt_0_3: "[0..<3] = [0, 1, 2]"
  by (simp add: upt_conv_Cons)

lemma demo_succeeded: "succeeded demo_client demo_signatures 3 = [0, 2]"
  by (simp add: succeeded_def demo_fetch_ok upt_0_3)

lemma demo_record_0:
  "record_of demo_client demo_signatures 0 =
     \<lparr>Signature = ''S0'', Slot = 100, BlockTime = Some 1700000000, Meta = Some 5000,
      Transaction = Some ''tx of S0''\<rparr>"
  by (simp add: record_of_def fetch_task_def demo_client_def demo_signatures_def)

lemma demo_record_2:
  "record_of demo_client demo_signatures 2 =
     \<lparr>Signature = ''S2'', Slot = 102, BlockTime = Some 1700000002, Meta = Some 5000,
      Transaction = None\<rparr>"
  by (simp add: record_of_def fetch_task_def demo_client_def demo_signatures_def)

lemma demo_listing_fails: "GetSignaturesForAddress demo_client ''nobody'' = Inl ''rpc unavailable''"
  by (simp add: demo_client_def)

lemma demo_listing_empty: "GetSignaturesForAddress demo_client ''fresh'' = Inr []"
  by (simp add: demo_client_def)

lemma demo_String: "PublicKey_String demo_client a = a" "Signature_String demo_client s = s"
  by (simp_all add: demo_client_def)

lemma demo_length: "length demo_signatures = 3"
  by (simp add: demo_signatures_def)

section \<open>The claims\<close>



text \<open>
  C1. Whenever the signatures are listed, and whatever the completion order of the tasks, the
  records of the batch are the records of the input indices whose fetch succeeded, listed
  by strictly ascending input index; a different completion order gives the same result.
  By \<open>mset_deliver\<close> and \<open>deliver_complete\<close> the schedules range over every order in
  which the tasks can complete.
\<close>

theorem output_in_input_order:
  assumes "GetSignaturesForAddress c account = Inr signatures"
  shows "(\<exists>b. fst (FetchAccountTransactions c sched now account limit) = Some b
            \<and> Transactions b = Slice (map (record_of c signatures)
                 (succeeded c signatures (processCount signatures limit))))
         \<and> sorted_wrt (<) (succeeded c signatures (processCount signatures limit))
         \<and> FetchAccountTransactions c sched' now account limit
             = FetchAccountTransactions c sched now account limit"
  by (simp add: Fetch_listed [OF assms] sorted_succeeded)

theorem output_in_input_order_witness:
  "GetSignaturesForAddress demo_client ''wallet'' = Inr demo_signatures
   \<and> (\<exists>b. fst (FetchAccountTransactions demo_client [2, 0, 1] 42 ''wallet'' 3) = Some b
          \<and> Transactions b =
              Slice [\<lparr>Signature = ''S0'', Slot = 100, BlockTime = Some 1700000000,
                      Meta = Some 5000, Transaction = Some ''tx of S0''\<rparr>,
                     \<lparr>Signature = ''S2'', Slot = 102, BlockTime = Some 1700000002,
                      Meta = Some 5000, Transaction = None\<rparr>])
   \<and> FetchAccountTransactions demo_client [] 42 ''wallet'' 3
       = FetchAccountTransactions demo_client [2, 0, 1] 42 ''wallet'' 3"
  using output_in_input_order [OF demo_listing, of "[2, 0, 1]" 42 3 "[]"]
  by (simp add: demo_listing demo_processCount demo_succeeded demo_record_0 demo_record_2)

text \<open>
  C2. If the full-transaction fetch of index \<open>i\<close> fails, the batch has no entry for \<open>i\<close>:
  its records are those of every other index whose fetch succeeded, in ascending order,
  and no error is returned. For \<open>[S0, S1, S2]\<close> with \<open>S1\<close> failing and limit 3 the batch
  is \<open>[record S0, record S2]\<close>.
\<close>

theorem failed_fetch_omitted:
  assumes "GetSignaturesForAddress c account = Inr signatures"
    and "i < processCount signatures limit"
    and "GetTransaction c (sig_Signature (signatures ! i)) = Inl e"
  shows "snd (FetchAccountTransactions c sched now account limit) = None
         \<and> (\<exists>b. fst (FetchAccountTransactions c sched now account limit) = Some b
                \<and> Transactions b = Slice (map (record_of c signatures)
                     (filter (\<lambda>j. j \<noteq> i \<and> fetch_ok c signatures j)
                        [0..<processCount signatures limit])))"
proof -
  have "\<not> fetch_ok c signatures i" using assms(3) by (simp add: fetch_ok_def)
  then have "filter (\<lambda>j. j \<noteq> i \<and> fetch_ok c signatures j) [0..<processCount signatures limit]
      = succeeded c signatures (processCount signatures limit)"
    unfolding succeeded_def by (intro filter_cong) auto
  then show ?thesis by (simp add: Fetch_listed [OF assms(1)])
qed

theorem failed_fetch_omitted_witness:
  "GetSignaturesForAddress demo_client ''wallet'' = Inr demo_signatures
   \<and> 1 < processCount demo_signatures 3
   \<and> GetTransaction demo_client (sig_Signature (demo_signatures ! 1)) = Inl ''not found''
   \<and> snd (FetchAccountTransactions demo_client [1, 1, 0] 42 ''wallet'' 3) = None
   \<and> (\<exists>b. fst (FetchAccountTransactions demo_client [1, 1, 0] 42 ''wallet'' 3) = Some b
          \<and> Transactions b =
               Slice [record_of demo_client demo_signatures 0,
                      record_of demo_client demo_signatures 2])"
proof -
  have f: "GetTransaction demo_client (sig_Signature (demo_signatures ! 1)) = Inl ''not found''"
    by (simp add: demo_client_def demo_signatures_def)
  have lt: "1 < processCount demo_signatures 3" by (simp add: demo_processCount)
  show ?thesis
    using f failed_fetch_omitted [OF demo_listing lt f, of "[1, 1, 0]" 42]
    by (simp add: demo_listing demo_processCount upt_0_3 demo_fetch_ok)
qed

text \<open>
  C4. \<^verbatim>\<open>FetchAccountTransactions\<close> returns an error if and only if the signature-listing
  call fails. Then it returns no batch (a \<^verbatim>\<open>nil\<close> pointer) and an error whose message
  contains the account's string; otherwise it returns a batch and a \<^verbatim>\<open>nil\<close> error.
\<close>

theorem whole_failure_iff_listing_fails:
  "(isl (GetSignaturesForAddress c account)
      \<longleftrightarrow> snd (FetchAccountTransactions c sched now account limit) \<noteq> None)
   \<and> (isl (GetSignaturesForAddress c account) \<longrightarrow>
        fst (FetchAccountTransactions c sched now account limit) = None
        \<and> (\<exists>msg. snd (FetchAccountTransactions c sched now account limit) = Some msg
               \<and> sublist (PublicKey_String c account) msg))
   \<and> (\<not> isl (GetSignaturesForAddress c account) \<longrightarrow>
        fst (FetchAccountTransactions c sched now account limit) \<noteq> None
        \<and> snd (FetchAccountTransactions c sched now account limit) = None)"
proof (cases "GetSignaturesForAddress c account")
  case (Inl e)
  have "sublist (PublicKey_String c account)
          (''failed to get signatures for account '' @ PublicKey_String c account @ '': '' @ e)"
    unfolding sublist_def by blast
  then show ?thesis by (simp add: Inl Fetch_failed [OF Inl])
next
  case (Inr signatures)
  then show ?thesis by (simp add: Fetch_listed [OF Inr])
qed

theorem whole_failure_iff_listing_fails_witness:
  "isl (GetSignaturesForAddress demo_client ''nobody'')
   \<and> FetchAccountTransactions demo_client [] 42 ''nobody'' 3
       = (None, Some ''failed to get signatures for account nobody: rpc unavailable'')
   \<and> sublist ''nobody'' ''failed to get signatures for account nobody: rpc unavailable''
   \<and> \<not> isl (GetSignaturesForAddress demo_client ''wallet'')
   \<and> fst (FetchAccountTransactions demo_client [] 42 ''wallet'' 3) \<noteq> None
   \<and> snd (FetchAccountTransactions demo_client [] 42 ''wallet'' 3) = None"
proof -
  have m: "FetchAccountTransactions demo_client [] 42 ''nobody'' 3
      = (None, Some ''failed to get signatures for account nobody: rpc unavailable'')"
    by (simp add: FetchAccountTransactions_def FetchAccountTransactions_run_def demo_client_def)
  show ?thesis
    using whole_failure_iff_listing_fails [of demo_client "''nobody''" "[]" 42 3]
      whole_failure_iff_listing_fails [of demo_client "''wallet''" "[]" 42 3]
    by (simp add: demo_listing demo_listing_fails m demo_String)
qed

text \<open>
  C5. Whatever the completion order, the records of the batch are the records of a list of
  input indices without repetition, each below \<open>processCount\<close> (and so inside the
  signature list); the batch has at most \<open>processCount\<close> records.
\<close>

theorem no_duplicates_no_out_of_range:
  assumes "GetSignaturesForAddress c account = Inr signatures"
  shows "\<exists>b. fst (FetchAccountTransactions c sched now account limit) = Some b
           \<and> Transactions b = Slice (map (record_of c signatures)
                (succeeded c signatures (processCount signatures limit)))
           \<and> distinct (succeeded c signatures (processCount signatures limit))
           \<and> (\<forall>i \<in> set (succeeded c signatures (processCount signatures limit)).
                 i < processCount signatures limit \<and> i < length signatures)
           \<and> len (Transactions b) \<le> processCount signatures limit"
proof -
  let ?n = "processCount signatures limit"
  have "length (succeeded c signatures ?n) \<le> length [0..<?n]"
    unfolding succeeded_def by (rule length_filter_le)
  moreover have "\<forall>i \<in> set (succeeded c signatures ?n). i < ?n \<and> i < length signatures"
    using processCount_le [of signatures limit] by (auto simp: succeeded_def)
  moreover have "distinct (succeeded c signatures ?n)"
    by (simp add: succeeded_def)
  ultimately show ?thesis
    by (simp add: Fetch_listed [OF assms] len_def)
qed

theorem no_duplicates_no_out_of_range_witness:
  "GetSignaturesForAddress demo_client ''wallet'' = Inr demo_signatures
   \<and> (\<exists>b. fst (FetchAccountTransactions demo_client [0, 1] 42 ''wallet'' 2) = Some b
          \<and> Transactions b = Slice (map (record_of demo_client demo_signatures) [0])
          \<and> len (Transactions b) \<le> 2)"
proof -
  have pc: "processCount demo_signatures 2 = 2"
    by (simp add: processCount_def demo_signatures_def)
  have s: "succeeded demo_client demo_signatures 2 = [0]"
    by (simp add: succeeded_def upt_0_2 demo_fetch_ok)
  show ?thesis
    using no_duplicates_no_out_of_range [OF demo_listing, of "[0, 1]" 42 2]
    by (simp add: demo_listing pc s demo_length)
qed

text \<open>
  C6. If the fetch of index \<open>i\<close> succeeds and its payload does not decode, the batch still
  has the record of \<open>i\<close>, at the position given by the number of successful indices before
  it: the signature string, slot, block time and meta, with no decoded transaction. No error
  is returned.
\<close>

theorem decode_failure_keeps_item:
  assumes "GetSignaturesForAddress c account = Inr signatures"
    and "i < processCount signatures limit"
    and "GetTransaction c (sig_Signature (signatures ! i)) = Inr txResult"
    and "res_Transaction txResult = Some envelope"
    and "Envelope_GetTransaction c envelope = Inl e"
  shows "snd (FetchAccountTransactions c sched now account limit) = None
         \<and> (\<exists>b. fst (FetchAccountTransactions c sched now account limit) = Some b
                \<and> length (succeeded c signatures i) < len (Transactions b)
                \<and> elems (Transactions b) ! length (succeeded c signatures i)
                    = \<lparr>Signature = Signature_String c (sig_Signature (signatures ! i)),
                       Slot = sig_Slot (signatures ! i),
                       BlockTime = sig_BlockTime (signatures ! i),
                       Meta = res_Meta txResult,
                       Transaction = None\<rparr>)"
proof -
  let ?n = "processCount signatures limit"
  have ok: "fetch_ok c signatures i" using assms(3) by (simp add: fetch_ok_def)
  have rec: "record_of c signatures i
      = \<lparr>Signature = Signature_String c (sig_Signature (signatures ! i)),
         Slot = sig_Slot (signatures ! i),
         BlockTime = sig_BlockTime (signatures ! i),
         Meta = res_Meta txResult,
         Transaction = None\<rparr>"
    using assms(3,4,5)
    by (simp add: record_of_def fetch_task_def Let_def split: option.splits)
  note sp = succeeded_split [OF assms(2) ok]
  have "map (record_of c signatures) (succeeded c signatures ?n)
            ! length (succeeded c signatures i) = record_of c signatures i"
    by (simp add: sp nth_append)
  moreover have "length (succeeded c signatures i) < length (succeeded c signatures ?n)"
    by (simp add: sp)
  ultimately show ?thesis
    by (simp add: Fetch_listed [OF assms(1)] len_def rec)
qed

theorem decode_failure_keeps_item_witness:
  "GetSignaturesForAddress demo_client ''wallet'' = Inr demo_signatures
   \<and> 2 < processCount demo_signatures 3
   \<and> GetTransaction demo_client (sig_Signature (demo_signatures ! 2))
       = Inr \<lparr>res_Meta = Some 5000, res_Transaction = Some ''S2''\<rparr>
   \<and> Envelope_GetTransaction demo_client ''S2'' = Inl ''bad payload''
   \<and> snd (FetchAccountTransactions demo_client [2] 42 ''wallet'' 3) = None
   \<and> (\<exists>b. fst (FetchAccountTransactions demo_client [2] 42 ''wallet'' 3) = Some b
          \<and> 1 < len (Transactions b)
          \<and> elems (Transactions b) ! 1
              = \<lparr>Signature = ''S2'', Slot = 102, BlockTime = Some 1700000002,
                 Meta = Some 5000, Transaction = None\<rparr>)"
proof -
  have lt: "2 < processCount demo_signatures 3" by (simp add: demo_processCount)
  have g: "GetTransaction demo_client (sig_Signature (demo_signatures ! 2))
      = Inr \<lparr>res_Meta = Some 5000, res_Transaction = Some ''S2''\<rparr>"
    by (simp add: demo_client_def demo_signatures_def)
  have t: "res_Transaction \<lparr>res_Meta = Some (5000::nat), res_Transaction = Some ''S2''\<rparr>
      = Some ''S2''" by simp
  have d: "Envelope_GetTransaction demo_client ''S2'' = Inl ''bad payload''"
    by (simp add: demo_client_def)
  have s: "succeeded demo_client demo_signatures 2 = [0]"
    by (simp add: succeeded_def upt_0_2 demo_fetch_ok)
  have v: "Signature_String demo_client (sig_Signature (demo_signatures ! 2)) = ''S2''"
    "sig_Slot (demo_signatures ! 2) = 102"
    "sig_BlockTime (demo_signatures ! 2) = Some 1700000002"
    by (simp_all add: demo_client_def demo_signatures_def)
  show ?thesis
    using decode_failure_keeps_item [OF demo_listing lt g t d, of "[2]" 42]
    by (simp add: demo_listing lt g d s v)
qed

text \<open>
  C7. When the listing returns no signatures, the result is a batch with the queried account,
  an empty transactions slice that is not \<^verbatim>\<open>nil\<close>, and the fetch time, with no error.
\<close>

theorem empty_listing_gives_empty_batch:
  assumes "GetSignaturesForAddress c account = Inr []"
  shows "snd (FetchAccountTransactions c sched now account limit) = None
         \<and> (\<exists>b. fst (FetchAccountTransactions c sched now account limit) = Some b
                \<and> Account b = account
                \<and> Transactions b = Slice []
                \<and> Transactions b \<noteq> nil_slice
                \<and> len (Transactions b) = 0
                \<and> LastFetched b = now)"
  by (simp add: Fetch_listed [OF assms] processCount_def succeeded_def len_def)

theorem empty_listing_gives_empty_batch_witness:
  "GetSignaturesForAddress demo_client ''fresh'' = Inr []
   \<and> FetchAccountTransactions demo_client [3, 1] 42 ''fresh'' 5
       = (Some \<lparr>Account = ''fresh'', Transactions = Slice [], LastFetched = 42\<rparr>, None)"
proof -
  obtain b where b: "fst (FetchAccountTransactions demo_client [3, 1] 42 ''fresh'' 5) = Some b"
      "Account b = ''fresh''" "Transactions b = Slice []" "LastFetched b = 42"
    and e: "snd (FetchAccountTransactions demo_client [3, 1] 42 ''fresh'' 5) = None"
    using empty_listing_gives_empty_batch [OF demo_listing_empty, of "[3, 1]" 42 5]
    by auto
  from b(2,3,4) have "b = \<lparr>Account = ''fresh'', Transactions = Slice [], LastFetched = 42\<rparr>"
    by (cases b) simp
  with b(1) e show ?thesis
    by (simp add: demo_listing_empty prod_eq_iff)
qed

text \<open>
  C8. Two runs against the same upstream, on the same account and limit, return the same
  error, the same account and the same sequence of records, whatever their completion orders
  and clock readings: the second result is the first with its fetch time replaced.
\<close>

theorem deterministic_up_to_timestamp:
  "snd (FetchAccountTransactions c sched2 now2 account limit)
     = snd (FetchAccountTransactions c sched1 now1 account limit)
   \<and> map_option Transactions (fst (FetchAccountTransactions c sched2 now2 account limit))
       = map_option Transactions (fst (FetchAccountTransactions c sched1 now1 account limit))
   \<and> map_option Account (fst (FetchAccountTransactions c sched2 now2 account limit))
       = map_option Account (fst (FetchAccountTransactions c sched1 now1 account limit))
   \<and> FetchAccountTransactions c sched2 now2 account limit
       = (map_option (\<lambda>b. b\<lparr>LastFetched := now2\<rparr>)
            (fst (FetchAccountTransactions c sched1 now1 account limit)),
          snd (FetchAccountTransactions c sched1 now1 account limit))"
proof (cases "GetSignaturesForAddress c account")
  case (Inl e)
  then show ?thesis by (simp add: Fetch_failed [OF Inl])
next
  case (Inr signatures)
  then show ?thesis by (simp add: Fetch_listed [OF Inr])
qed

theorem deterministic_up_to_timestamp_witness:
  "FetchAccountTransactions demo_client [0] 7 ''wallet'' 3
     = (map_option (\<lambda>b. b\<lparr>LastFetched := 7\<rparr>)
          (fst (FetchAccountTransactions demo_client [2, 2] 42 ''wallet'' 3)),
        snd (FetchAccountTransactions demo_client [2, 2] 42 ''wallet'' 3))"
  using deterministic_up_to_timestamp [of demo_client "[0]" 7 "''wallet''" 3 "[2, 2]" 42]
  by simp

text \<open>
  C9. With \<^verbatim>\<open>WS_URL\<close> not set, an \<^verbatim>\<open>RPC_URL\<close> that starts with \<^verbatim>\<open>https://\<close> gives the
  same URL with \<^verbatim>\<open>wss://\<close> in its place, and one that starts with \<^verbatim>\<open>http://\<close> gives the
  same URL with \<^verbatim>\<open>ws://\<close> in its place.
\<close>

theorem GetWSURL_scheme_substitution:
  assumes "getenv ''WS_URL'' = []"
  shows "(getenv ''RPC_URL'' = ''https://'' @ rest \<longrightarrow> GetWSURL getenv = Inr (''wss://'' @ rest))
       \<and> (getenv ''RPC_URL'' = ''http://'' @ rest \<longrightarrow> GetWSURL getenv = Inr (''ws://'' @ rest))"
  using assms by (simp add: GetWSURL_def)

theorem GetWSURL_scheme_substitution_witness:
  "(\<lambda>v. if v = ''RPC_URL'' then ''https://rpc.example/?k=1'' else []) ''WS_URL'' = []
   \<and> GetWSURL (\<lambda>v. if v = ''RPC_URL'' then ''https://rpc.example/?k=1'' else [])
       = Inr ''wss://rpc.example/?k=1''
   \<and> (\<lambda>v. if v = ''RPC_URL'' then ''http://localhost:8899'' else []) ''WS_URL'' = []
   \<and> GetWSURL (\<lambda>v. if v = ''RPC_URL'' then ''http://localhost:8899'' else [])
       = Inr ''ws://localhost:8899''"
  using GetWSURL_scheme_substitution
      [of "\<lambda>v. if v = ''RPC_URL'' then ''https://rpc.example/?k=1'' else []" "''rpc.example/?k=1''"]
    GetWSURL_scheme_substitution
      [of "\<lambda>v. if v = ''RPC_URL'' then ''http://localhost:8899'' else []" "''localhost:8899''"]
  by simp

text \<open>
  C10. When the signature listing fails, \<^verbatim>\<open>main\<close> logs the error and nothing else, then
  reads \<^verbatim>\<open>Transactions\<close> through the \<^verbatim>\<open>nil\<close> pointer it was returned.
\<close>

theorem main_nil_dereference_on_listing_failure:
  assumes "GetSignaturesForAddress c account = Inl e"
  shows "main c sched now account TRANSACTIONS_LIMIT
           = ([''Error fetching transactions for account '' @ PublicKey_String c account
                 @ '': '' @ ''failed to get signatures for account ''
                 @ PublicKey_String c account @ '': '' @ e],
              NilPointerDereference)"
  by (simp add: main_def Fetch_failed [OF assms])

theorem main_nil_dereference_on_listing_failure_witness:
  "GetSignaturesForAddress demo_client ''nobody'' = Inl ''rpc unavailable''
   \<and> main demo_client [] 42 ''nobody'' 20
       = ([''Error fetching transactions for account nobody: failed to get signatures for account nobody: rpc unavailable''],
          NilPointerDereference)"
  using main_nil_dereference_on_listing_failure [OF demo_listing_fails, of "[]" 42 20]
  by (simp add: demo_listing_fails demo_client_def)

end
